theory Spec2Isabelle
  imports Main
begin

section \<open>The mixin aggregator \<^verbatim>\<open>web/server/vue-cli/src/mixins/index.js\<close>\<close>

text \<open>
  The module under verification is an ECMAScript module made of four default imports and
  one export list:
  \<^verbatim>\<open>
  import DetectionStatusMixin from './detection-status.mixin';
  import BugPathLengthColorMixin from './bug-path-length-color.mixin';
  import SeverityMixin from './severity.mixin';
  import StrToColorMixin from './str-to-color.mixin';

  export {
    BugPathLengthColorMixin,
    DetectionStatusMixin,
    SeverityMixin,
    StrToColorMixin
  }
  \<close>
  It is embedded in two layers: the module itself, as the list of its module items (and,
  beside it, the lines of the file), and the part of the ECMAScript module semantics that
  gives those items their meaning: locating the requested modules, linking the import
  bindings, evaluating the dependencies once, and building the export table.
\<close>

subsection \<open>Names, references and module items\<close>

type_synonym name = string
type_synonym specifier = string

text \<open>
  A JavaScript value is known here only by its identity: two references are the same
  object exactly when they are equal.
\<close>

type_synonym ref = nat

text \<open>The export table of a module: its namespace, from exported names to references.\<close>

type_synonym namespace = "name \<rightharpoonup> ref"

text \<open>
  The two forms of module item the file uses: \<^verbatim>\<open>import X from 'spec'\<close> binds the local
  name \<open>X\<close> to the default export of the module \<open>spec\<close>; \<^verbatim>\<open>export { a, b }\<close> exports the
  local bindings \<open>a\<close> and \<open>b\<close> under their own names.
\<close>

datatype module_item =
    ImportDefault name specifier
  | ExportList "name list"

definition index_js :: "module_item list" where
  "index_js =
    [ImportDefault ''DetectionStatusMixin'' ''./detection-status.mixin'',
     ImportDefault ''BugPathLengthColorMixin'' ''./bug-path-length-color.mixin'',
     ImportDefault ''SeverityMixin'' ''./severity.mixin'',
     ImportDefault ''StrToColorMixin'' ''./str-to-color.mixin'',
     ExportList
       [''BugPathLengthColorMixin'',
        ''DetectionStatusMixin'',
        ''SeverityMixin'',
        ''StrToColorMixin'']]"

text \<open>The file, line by line as it is stored (the last line has no line terminator).\<close>

definition index_js_text :: "string list" where
  "index_js_text =
    [''import DetectionStatusMixin from './detection-status.mixin';'',
     ''import BugPathLengthColorMixin from './bug-path-length-color.mixin';'',
     ''import SeverityMixin from './severity.mixin';'',
     ''import StrToColorMixin from './str-to-color.mixin';'',
     '''',
     ''export {'',
     ''  BugPathLengthColorMixin,'',
     ''  DetectionStatusMixin,'',
     ''  SeverityMixin,'',
     ''  StrToColorMixin'',
     ''}'']"

subsection \<open>Reading the module items off the lines\<close>

text \<open>
  A reader for the layout the file uses (one import declaration per line, an export list
  with one name per line), so that \<open>index_js\<close> is tied to the stored text by computation
  and not by inspection only. \<open>None\<close> is a line the reader does not understand.
\<close>

fun split_words :: "string \<Rightarrow> string \<Rightarrow> string list" where
  "split_words acc [] = (if acc = [] then [] else [rev acc])"
| "split_words acc (c # cs) =
     (if c = CHR '' '' then (if acc = [] then split_words [] cs else rev acc # split_words [] cs)
      else split_words (c # acc) cs)"

definition strip_suffix :: "char \<Rightarrow> string \<Rightarrow> string" where
  "strip_suffix c s = (if s \<noteq> [] \<and> last s = c then butlast s else s)"

definition unquote :: "string \<Rightarrow> string option" where
  "unquote s =
     (case s of
        [] \<Rightarrow> None
      | q # rest \<Rightarrow>
          if q = CHR 0x27 \<and> rest \<noteq> [] \<and> last rest = CHR 0x27 then Some (butlast rest) else None)"

text \<open>
  \<open>read_items names ls\<close>: \<open>names = None\<close> outside an export list, \<open>Some ns\<close> inside one
  whose names so far are \<open>ns\<close> (in reverse).
\<close>

fun read_items :: "name list option \<Rightarrow> string list \<Rightarrow> module_item list option" where
  "read_items None [] = Some []"
| "read_items (Some ns) [] = None"
| "read_items None (l # ls) =
     (case split_words [] l of
        [] \<Rightarrow> read_items None ls
      | [kw, x, fr, q] \<Rightarrow>
          (if kw = ''import'' \<and> fr = ''from'' then
             (case unquote (strip_suffix CHR '';'' q) of
                None \<Rightarrow> None
              | Some s \<Rightarrow> map_option ((#) (ImportDefault x s)) (read_items None ls))
           else None)
      | [kw, br] \<Rightarrow>
          (if kw = ''export'' \<and> br = ''{'' then read_items (Some []) ls else None)
      | _ \<Rightarrow> None)"
| "read_items (Some ns) (l # ls) =
     (case split_words [] l of
        [w] \<Rightarrow>
          (if w = ''}'' then map_option ((#) (ExportList (rev ns))) (read_items None ls)
           else read_items (Some (strip_suffix CHR '','' w # ns)) ls)
      | _ \<Rightarrow> None)"

subsection \<open>Import and export entries\<close>

text \<open>
  The import entries of a module (local name, requested module; the imported name is
  always \<open>default\<close> here), its requested modules in source order without repetition, and
  the names of its export lists.
\<close>

definition default_name :: name where
  "default_name = ''default''"

fun import_entries :: "module_item list \<Rightarrow> (name \<times> specifier) list" where
  "import_entries [] = []"
| "import_entries (ImportDefault x s # items) = (x, s) # import_entries items"
| "import_entries (ExportList ns # items) = import_entries items"

fun exported_names :: "module_item list \<Rightarrow> name list" where
  "exported_names [] = []"
| "exported_names (ImportDefault x s # items) = exported_names items"
| "exported_names (ExportList ns # items) = ns @ exported_names items"

definition requested_modules :: "module_item list \<Rightarrow> specifier list" where
  "requested_modules items = rev (remdups (rev (map snd (import_entries items))))"

fun first_duplicate :: "'a list \<Rightarrow> 'a option" where
  "first_duplicate [] = None"
| "first_duplicate (x # xs) = (if x \<in> set xs then Some x else first_duplicate xs)"

subsection \<open>Underlying modules, the module map and the world\<close>

text \<open>
  Why loading a module fails: the requested module cannot be located; a module does not
  provide the imported name; the body of a module threw while it was evaluated; and the
  early errors of a module text (an export list naming a binding the module does not
  declare, a name declared twice, a name exported twice).
\<close>

datatype load_error =
    ModuleNotFound specifier
  | ExportNotFound specifier name
  | EvaluationError specifier
  | NotDefined name
  | DuplicateDeclaration name
  | DuplicateExport name

type_synonym outcome = "load_error + namespace"

text \<open>
  The four mixin modules are not part of the file: they are parameters. An underlying
  module is what the loader sees of it: the export names its text declares (known at link
  time) and its body, which, run in the current world \<open>'w\<close> (heap, document, storage,
  network: everything outside the module map), either throws or yields the values of its
  bindings, and leaves a new world. The bindings are taken to keep the values the body
  gave them, as those of an \<^verbatim>\<open>export default\<close> declaration do.
\<close>

record 'w module_record =
  provides :: "name list"
  initialise :: "'w \<Rightarrow> (name \<Rightarrow> ref) option \<times> 'w"

text \<open>The host: the modules that can be located, by specifier.\<close>

type_synonym 'w host = "specifier \<rightharpoonup> 'w module_record"

text \<open>
  The state of the process: the module map (the outcome of every module evaluated so
  far: a module is evaluated at most once and its outcome kept) and the world.
\<close>

record 'w runtime =
  module_map :: "specifier \<rightharpoonup> outcome"
  world :: 'w

definition boot :: "'w \<Rightarrow> 'w runtime" where
  "boot w = \<lparr>module_map = Map.empty, world = w\<rparr>"

text \<open>The specifier under which consumers import the file itself.\<close>

definition aggregator :: specifier where
  "aggregator = ''./index''"

subsection \<open>Static phases: early errors, locating, linking\<close>

definition early_errors :: "module_item list \<Rightarrow> load_error option" where
  "early_errors items =
     (let locals = map fst (import_entries items); exps = exported_names items in
      case first_duplicate locals of
        Some x \<Rightarrow> Some (DuplicateDeclaration x)
      | None \<Rightarrow>
          (case first_duplicate exps of
             Some x \<Rightarrow> Some (DuplicateExport x)
           | None \<Rightarrow>
               (case find (\<lambda>n. n \<notin> set locals) exps of
                  Some n \<Rightarrow> Some (NotDefined n)
                | None \<Rightarrow> None)))"

fun locate_all :: "'w host \<Rightarrow> specifier list \<Rightarrow> load_error option" where
  "locate_all h [] = None"
| "locate_all h (s # ss) =
     (case h s of None \<Rightarrow> Some (ModuleNotFound s) | Some m \<Rightarrow> locate_all h ss)"

fun link_imports :: "'w host \<Rightarrow> (name \<times> specifier) list \<Rightarrow> load_error option" where
  "link_imports h [] = None"
| "link_imports h ((x, s) # es) =
     (case h s of
        None \<Rightarrow> Some (ModuleNotFound s)
      | Some m \<Rightarrow>
          if default_name \<in> set (provides m) then link_imports h es
          else Some (ExportNotFound s default_name))"

text \<open>
  All requested modules are located before any import is linked, and every import is
  linked before anything is evaluated.
\<close>

definition link_source :: "'w host \<Rightarrow> module_item list \<Rightarrow> load_error option" where
  "link_source h items =
     (case early_errors items of
        Some e \<Rightarrow> Some e
      | None \<Rightarrow>
          (case locate_all h (requested_modules items) of
             Some e \<Rightarrow> Some e
           | None \<Rightarrow> link_imports h (import_entries items)))"

subsection \<open>Evaluation\<close>

definition namespace_of :: "'w module_record \<Rightarrow> (name \<Rightarrow> ref) \<Rightarrow> namespace" where
  "namespace_of m env = (\<lambda>n. if n \<in> set (provides m) then Some (env n) else None)"

text \<open>
  Evaluating an underlying module: an outcome already in the module map is returned as
  it is and the body does not run again; otherwise the body runs once and its outcome is
  recorded.
\<close>

definition evaluate_module ::
  "'w host \<Rightarrow> specifier \<Rightarrow> 'w runtime \<Rightarrow> outcome \<times> 'w runtime" where
  "evaluate_module h s rt =
     (case h s of
        None \<Rightarrow> (Inl (ModuleNotFound s), rt)
      | Some m \<Rightarrow>
          (case module_map rt s of
             Some res \<Rightarrow> (res, rt)
           | None \<Rightarrow>
               (case initialise m (world rt) of
                  (None, w) \<Rightarrow>
                    (Inl (EvaluationError s),
                     \<lparr>module_map = (module_map rt)(s \<mapsto> Inl (EvaluationError s)), world = w\<rparr>)
                | (Some env, w) \<Rightarrow>
                    (Inr (namespace_of m env),
                     \<lparr>module_map = (module_map rt)(s \<mapsto> Inr (namespace_of m env)),
                      world = w\<rparr>))))"

text \<open>The requested modules are evaluated in source order, up to the first failure.\<close>

fun evaluate_all ::
  "'w host \<Rightarrow> specifier list \<Rightarrow> 'w runtime \<Rightarrow> load_error option \<times> 'w runtime" where
  "evaluate_all h [] rt = (None, rt)"
| "evaluate_all h (s # ss) rt =
     (case evaluate_module h s rt of
        (Inl e, rt') \<Rightarrow> (Some e, rt')
      | (Inr ns, rt') \<Rightarrow> evaluate_all h ss rt')"

text \<open>
  An exported name that is an imported binding resolves to the binding of the module it
  was imported from: the \<open>default\<close> entry of that module's namespace.
\<close>

definition resolve_export :: "module_item list \<Rightarrow> 'w runtime \<Rightarrow> name \<Rightarrow> ref option" where
  "resolve_export items rt n =
     (case map_of (import_entries items) n of
        None \<Rightarrow> None
      | Some s \<Rightarrow>
          (case module_map rt s of
             Some (Inr ns) \<Rightarrow> ns default_name
           | _ \<Rightarrow> None))"

definition export_table :: "module_item list \<Rightarrow> 'w runtime \<Rightarrow> namespace" where
  "export_table items rt =
     (\<lambda>n. if n \<in> set (exported_names items) then resolve_export items rt n else None)"

text \<open>
  Evaluating a module text: its requested modules first; the module's own body has no
  statement to run, so what is left is to build the export table and record it.
\<close>

definition evaluate_source ::
  "'w host \<Rightarrow> specifier \<Rightarrow> module_item list \<Rightarrow> 'w runtime \<Rightarrow> outcome \<times> 'w runtime" where
  "evaluate_source h key items rt =
     (case module_map rt key of
        Some res \<Rightarrow> (res, rt)
      | None \<Rightarrow>
          (case evaluate_all h (requested_modules items) rt of
             (Some e, rt') \<Rightarrow> (Inl e, rt'\<lparr>module_map := (module_map rt')(key \<mapsto> Inl e)\<rparr>)
           | (None, rt') \<Rightarrow>
               (Inr (export_table items rt'),
                rt'\<lparr>module_map := (module_map rt')(key \<mapsto> Inr (export_table items rt'))\<rparr>)))"

definition load_source ::
  "'w host \<Rightarrow> specifier \<Rightarrow> module_item list \<Rightarrow> 'w runtime \<Rightarrow> outcome \<times> 'w runtime" where
  "load_source h key items rt =
     (case link_source h items of
        Some e \<Rightarrow> (Inl e, rt)
      | None \<Rightarrow> evaluate_source h key items rt)"

subsection \<open>Consumers\<close>

text \<open>
  \<open>import_module h s\<close> is a consumer's \<^verbatim>\<open>import 's'\<close>: the aggregator's specifier names
  the file above, every other specifier an underlying module of the host.
\<close>

definition import_module :: "'w host \<Rightarrow> specifier \<Rightarrow> 'w runtime \<Rightarrow> outcome \<times> 'w runtime" where
  "import_module h s rt =
     (if s = aggregator then load_source h aggregator index_js rt else evaluate_module h s rt)"

text \<open>What the consumer's own linking checks of \<^verbatim>\<open>import { n } from 's'\<close>.\<close>

definition link_consumer :: "'w host \<Rightarrow> specifier \<Rightarrow> name \<Rightarrow> load_error option" where
  "link_consumer h s n =
     (if s = aggregator then
        (case link_source h index_js of
           Some e \<Rightarrow> Some e
         | None \<Rightarrow>
             if n \<in> set (exported_names index_js) then None else Some (ExportNotFound s n))
      else
        (case h s of
           None \<Rightarrow> Some (ModuleNotFound s)
         | Some m \<Rightarrow> if n \<in> set (provides m) then None else Some (ExportNotFound s n)))"

text \<open>
  \<open>import_named h s n\<close> is a consumer's \<^verbatim>\<open>import { n } from 's'\<close> followed by a read of
  the binding; with \<open>n = default\<close> it is \<^verbatim>\<open>import X from 's'\<close>.
\<close>

definition import_named ::
  "'w host \<Rightarrow> specifier \<Rightarrow> name \<Rightarrow> 'w runtime \<Rightarrow> (load_error + ref) \<times> 'w runtime" where
  "import_named h s n rt =
     (case link_consumer h s n of
        Some e \<Rightarrow> (Inl e, rt)
      | None \<Rightarrow>
          (case import_module h s rt of
             (Inl e, rt') \<Rightarrow> (Inl e, rt')
           | (Inr ns, rt') \<Rightarrow>
               (case ns n of
                  None \<Rightarrow> (Inl (ExportNotFound s n), rt')
                | Some r \<Rightarrow> (Inr r, rt'))))"

definition import_default ::
  "'w host \<Rightarrow> specifier \<Rightarrow> 'w runtime \<Rightarrow> (load_error + ref) \<times> 'w runtime" where
  "import_default h s rt = import_named h s default_name rt"

text \<open>
  What the rest of the program can do to the state: import a module, import a name from
  a module, or run any code of its own on the world.
\<close>

datatype 'w operation =
    ImportModule specifier
  | ImportNamed specifier name
  | Mutate "'w \<Rightarrow> 'w"

fun step :: "'w host \<Rightarrow> 'w operation \<Rightarrow> 'w runtime \<Rightarrow> 'w runtime" where
  "step h (ImportModule s) rt = snd (import_module h s rt)"
| "step h (ImportNamed s n) rt = snd (import_named h s n rt)"
| "step h (Mutate f) rt = rt\<lparr>world := f (world rt)\<rparr>"

fun run :: "'w host \<Rightarrow> 'w operation list \<Rightarrow> 'w runtime \<Rightarrow> 'w runtime" where
  "run h [] rt = rt"
| "run h (op # ops) rt = run h ops (step h op rt)"

subsection \<open>A concrete host\<close>

text \<open>
  Four underlying modules whose bodies allocate a fresh object each time they run (the
  world is the next free address): evaluated twice, such a module would hand out two
  different references.
\<close>

definition fresh_mixin :: "nat module_record" where
  "fresh_mixin = \<lparr>provides = [default_name], initialise = (\<lambda>w. (Some (\<lambda>n. w), Suc w))\<rparr>"

definition mixins_host :: "nat host" where
  "mixins_host =
     [''./detection-status.mixin'' \<mapsto> fresh_mixin,
      ''./bug-path-length-color.mixin'' \<mapsto> fresh_mixin,
      ''./severity.mixin'' \<mapsto> fresh_mixin,
      ''./str-to-color.mixin'' \<mapsto> fresh_mixin]"

text \<open>The same host with the severity mixin's file missing.\<close>

definition broken_host :: "nat host" where
  "broken_host = mixins_host(''./severity.mixin'' := None)"

text \<open>
  What loading the aggregator first thing in that host, in the world \<open>0\<close>, comes to: the
  table, and the state left behind.
\<close>

definition mixins_table :: namespace where
  "mixins_table =
     [''BugPathLengthColorMixin'' \<mapsto> 1,
      ''DetectionStatusMixin'' \<mapsto> 0,
      ''SeverityMixin'' \<mapsto> 2,
      ''StrToColorMixin'' \<mapsto> 3]"

definition mixins_loaded :: "nat runtime" where
  "mixins_loaded =
     \<lparr>module_map =
        [''./detection-status.mixin'' \<mapsto> Inr [default_name \<mapsto> 0],
         ''./bug-path-length-color.mixin'' \<mapsto> Inr [default_name \<mapsto> 1],
         ''./severity.mixin'' \<mapsto> Inr [default_name \<mapsto> 2],
         ''./str-to-color.mixin'' \<mapsto> Inr [default_name \<mapsto> 3],
         aggregator \<mapsto> Inr mixins_table],
      world = 4\<rparr>"

text \<open>The state after importing the severity mixin directly, first thing, in the world \<open>0\<close>.\<close>

definition severity_loaded :: "nat runtime" where
  "severity_loaded =
     \<lparr>module_map = [''./severity.mixin'' \<mapsto> Inr [default_name \<mapsto> 0]], world = 1\<rparr>"

subsection \<open>Well-formed states\<close>

text \<open>
  What holds of every state the process can reach: the namespace recorded for an
  underlying module has exactly the names the module provides, and the table recorded
  for the aggregator is the export table of \<open>index_js\<close> over requested modules that have
  all been evaluated.
\<close>

definition consistent :: "'w host \<Rightarrow> 'w runtime \<Rightarrow> bool" where
  "consistent h rt \<longleftrightarrow>
     (\<forall>s ns. s \<noteq> aggregator \<longrightarrow> module_map rt s = Some (Inr ns) \<longrightarrow>
        (\<exists>m. h s = Some m \<and> dom ns = set (provides m))) \<and>
     (\<forall>t. module_map rt aggregator = Some (Inr t) \<longrightarrow>
        link_source h index_js = None \<and> t = export_table index_js rt \<and>
        (\<forall>s \<in> set (requested_modules index_js). \<exists>ns. module_map rt s = Some (Inr ns)))"

section \<open>Properties\<close>

subsection \<open>The entries of \<open>index_js\<close>\<close>

lemma import_entries_index_js:
  "import_entries index_js =
     [(''DetectionStatusMixin'', ''./detection-status.mixin''),
      (''BugPathLengthColorMixin'', ''./bug-path-length-color.mixin''),
      (''SeverityMixin'', ''./severity.mixin''),
      (''StrToColorMixin'', ''./str-to-color.mixin'')]"
  by (simp add: index_js_def)

lemma exported_names_index_js:
  "exported_names index_js =
     [''BugPathLengthColorMixin'', ''DetectionStatusMixin'', ''SeverityMixin'',
      ''StrToColorMixin'']"
  by (simp add: index_js_def)

lemma requested_modules_index_js:
  "requested_modules index_js =
     [''./detection-status.mixin'', ''./bug-path-length-color.mixin'', ''./severity.mixin'',
      ''./str-to-color.mixin'']"
  by (simp add: requested_modules_def import_entries_index_js)

lemma early_errors_index_js: "early_errors index_js = None"
  by (simp add: early_errors_def import_entries_index_js exported_names_index_js)

lemma aggregator_not_requested: "aggregator \<notin> set (requested_modules index_js)"
  by (simp add: requested_modules_index_js aggregator_def)

lemma set_requested_modules: "set (requested_modules items) = snd ` set (import_entries items)"
  by (simp add: requested_modules_def)

subsection \<open>Facts about evaluation\<close>

lemma evaluate_module_keeps:
  assumes "evaluate_module h s rt = (res, rt')" and "module_map rt k = Some v"
  shows "module_map rt' k = Some v"
  using assms
  by (auto simp: evaluate_module_def split: option.splits prod.splits)

lemma evaluate_module_other:
  assumes "evaluate_module h s rt = (res, rt')" and "k \<noteq> s"
  shows "module_map rt' k = module_map rt k"
  using assms
  by (auto simp: evaluate_module_def split: option.splits prod.splits)

lemma evaluate_module_recorded:
  assumes "evaluate_module h s rt = (Inr ns, rt')"
  shows "module_map rt' s = Some (Inr ns)"
  using assms
  by (auto simp: evaluate_module_def split: option.splits prod.splits)

lemma evaluate_module_cached:
  assumes "h s = Some m" and "module_map rt s = Some res"
  shows "evaluate_module h s rt = (res, rt)"
  using assms by (simp add: evaluate_module_def)

lemma evaluate_module_fresh_dom:
  assumes "evaluate_module h s rt = (res, rt')" and "module_map rt s = None"
    and "module_map rt' s = Some (Inr ns)"
  shows "\<exists>m. h s = Some m \<and> dom ns = set (provides m)"
  using assms
  by (auto simp: evaluate_module_def namespace_of_def dom_def split: option.splits prod.splits if_splits)

lemma evaluate_all_keeps:
  "evaluate_all h ss rt = (r, rt') \<Longrightarrow> module_map rt k = Some v \<Longrightarrow> module_map rt' k = Some v"
proof (induction ss arbitrary: rt)
  case Nil
  then show ?case by simp
next
  case (Cons s ss)
  obtain res rt1 where ev: "evaluate_module h s rt = (res, rt1)"
    by (cases "evaluate_module h s rt")
  have k1: "module_map rt1 k = Some v"
    using evaluate_module_keeps [OF ev Cons.prems(2)] .
  show ?case
  proof (cases res)
    case (Inl e)
    with Cons.prems(1) ev have "rt' = rt1" by simp
    with k1 show ?thesis by simp
  next
    case (Inr ns)
    with Cons.prems(1) ev have "evaluate_all h ss rt1 = (r, rt')" by simp
    from Cons.IH [OF this k1] show ?thesis .
  qed
qed

lemma evaluate_all_other:
  "evaluate_all h ss rt = (r, rt') \<Longrightarrow> k \<notin> set ss \<Longrightarrow> module_map rt' k = module_map rt k"
proof (induction ss arbitrary: rt)
  case Nil
  then show ?case by simp
next
  case (Cons s ss)
  obtain res rt1 where ev: "evaluate_module h s rt = (res, rt1)"
    by (cases "evaluate_module h s rt")
  from Cons.prems(2) have ks: "k \<noteq> s" and kss: "k \<notin> set ss" by auto
  have k1: "module_map rt1 k = module_map rt k"
    using evaluate_module_other [OF ev ks] .
  show ?case
  proof (cases res)
    case (Inl e)
    with Cons.prems(1) ev have "rt' = rt1" by simp
    with k1 show ?thesis by simp
  next
    case (Inr ns)
    with Cons.prems(1) ev have "evaluate_all h ss rt1 = (r, rt')" by simp
    from Cons.IH [OF this kss] k1 show ?thesis by simp
  qed
qed

lemma evaluate_all_recorded:
  "evaluate_all h ss rt = (None, rt') \<Longrightarrow> s \<in> set ss \<Longrightarrow> \<exists>ns. module_map rt' s = Some (Inr ns)"
proof (induction ss arbitrary: rt)
  case Nil
  then show ?case by simp
next
  case (Cons a ss)
  obtain res rt1 where ev: "evaluate_module h a rt = (res, rt1)"
    by (cases "evaluate_module h a rt")
  show ?case
  proof (cases res)
    case (Inl e)
    with Cons.prems(1) ev show ?thesis by simp
  next
    case (Inr ns)
    with Cons.prems(1) ev have rest: "evaluate_all h ss rt1 = (None, rt')" by simp
    show ?thesis
    proof (cases "s = a")
      case True
      from ev Inr have "module_map rt1 a = Some (Inr ns)"
        by (simp add: evaluate_module_recorded)
      from evaluate_all_keeps [OF rest this] True show ?thesis by blast
    next
      case False
      with Cons.prems(2) have "s \<in> set ss" by simp
      from Cons.IH [OF rest this] show ?thesis .
    qed
  qed
qed

subsection \<open>Facts about linking\<close>

lemma locate_all_None: "locate_all h ss = None \<longleftrightarrow> (\<forall>s \<in> set ss. h s \<noteq> None)"
  by (induction ss) (auto split: option.splits)

lemma locate_all_Some:
  "locate_all h ss = Some e \<Longrightarrow> \<exists>s \<in> set ss. h s = None \<and> e = ModuleNotFound s"
  by (induction ss) (auto split: option.splits)

lemma link_imports_None:
  "link_imports h es = None \<Longrightarrow> (x, s) \<in> set es \<Longrightarrow>
     \<exists>m. h s = Some m \<and> default_name \<in> set (provides m)"
  by (induction es) (auto split: option.splits if_splits)

lemma link_source_index_js:
  "link_source h index_js =
     (case locate_all h (requested_modules index_js) of
        Some e \<Rightarrow> Some e
      | None \<Rightarrow> link_imports h (import_entries index_js))"
  by (simp add: link_source_def early_errors_index_js)

lemma link_source_missing:
  assumes "s \<in> set (requested_modules index_js)" and "h s = None"
  shows "\<exists>s' \<in> set (requested_modules index_js).
           h s' = None \<and> link_source h index_js = Some (ModuleNotFound s')"
proof -
  from assms have "locate_all h (requested_modules index_js) \<noteq> None"
    by (auto simp: locate_all_None)
  then obtain e where e: "locate_all h (requested_modules index_js) = Some e"
    by blast
  from locate_all_Some [OF e] e show ?thesis
    by (auto simp: link_source_index_js)
qed

lemma link_source_ok:
  assumes "link_source h index_js = None" and "(x, s) \<in> set (import_entries index_js)"
  shows "\<exists>m. h s = Some m \<and> default_name \<in> set (provides m)"
proof -
  from assms(1) have "link_imports h (import_entries index_js) = None"
    by (simp add: link_source_index_js split: option.splits)
  from link_imports_None [OF this assms(2)] show ?thesis .
qed

subsection \<open>Facts about the export table\<close>

lemma resolve_export_cong:
  assumes "\<And>s. s \<in> set (requested_modules items) \<Longrightarrow> module_map rt' s = module_map rt s"
  shows "resolve_export items rt' n = resolve_export items rt n"
proof (cases "map_of (import_entries items) n")
  case None
  then show ?thesis by (simp add: resolve_export_def)
next
  case (Some s)
  then have "(n, s) \<in> set (import_entries items)" by (rule map_of_SomeD)
  then have "s \<in> set (requested_modules items)"
    by (force simp: set_requested_modules)
  then have "module_map rt' s = module_map rt s" by (rule assms)
  with Some show ?thesis by (simp add: resolve_export_def)
qed

lemma export_table_cong:
  assumes "\<And>s. s \<in> set (requested_modules items) \<Longrightarrow> module_map rt' s = module_map rt s"
  shows "export_table items rt' = export_table items rt"
  using resolve_export_cong [of items rt' rt, OF assms]
  by (auto simp: export_table_def)

lemma map_of_import_entries_index_js:
  assumes "(x, s) \<in> set (import_entries index_js)"
  shows "map_of (import_entries index_js) x = Some s"
  using assms by (auto simp: import_entries_index_js)

lemma exported_are_imported:
  "set (exported_names index_js) = fst ` set (import_entries index_js)"
  unfolding exported_names_index_js import_entries_index_js
  by (simp add: insert_commute)

lemma exported_is_imported:
  "x \<in> set (exported_names index_js) \<longleftrightarrow> (\<exists>s. (x, s) \<in> set (import_entries index_js))"
  unfolding exported_are_imported by force

subsection \<open>Well-formed states are preserved\<close>

lemma consistent_boot: "consistent h (boot w)"
  by (simp add: consistent_def boot_def)

lemma consistent_evaluate_module:
  assumes c: "consistent h rt" and ev: "evaluate_module h s rt = (res, rt')"
    and s: "s \<noteq> aggregator"
  shows "consistent h rt'"
  unfolding consistent_def
proof (intro conjI allI impI)
  fix k ns
  assume k: "k \<noteq> aggregator" and rec: "module_map rt' k = Some (Inr ns)"
  show "\<exists>m. h k = Some m \<and> dom ns = set (provides m)"
  proof (cases "module_map rt k")
    case None
    have "k = s"
    proof (rule ccontr)
      assume "k \<noteq> s"
      from evaluate_module_other [OF ev this] None rec show False by simp
    qed
    with evaluate_module_fresh_dom [OF ev] None rec show ?thesis by simp
  next
    case (Some v)
    from evaluate_module_keeps [OF ev Some] rec have "v = Inr ns" by simp
    with Some c k show ?thesis by (simp add: consistent_def)
  qed
next
  fix t
  assume "module_map rt' aggregator = Some (Inr t)"
  with evaluate_module_other [OF ev, of aggregator] s
  have old: "module_map rt aggregator = Some (Inr t)" by simp
  with c have link: "link_source h index_js = None"
    and t: "t = export_table index_js rt"
    and req: "\<forall>s \<in> set (requested_modules index_js). \<exists>ns. module_map rt s = Some (Inr ns)"
    by (simp_all add: consistent_def)
  have same: "module_map rt' k = module_map rt k" if "k \<in> set (requested_modules index_js)" for k
  proof -
    from req that obtain ns where "module_map rt k = Some (Inr ns)" by blast
    with evaluate_module_keeps [OF ev this] show ?thesis by simp
  qed
  show "link_source h index_js = None" by (rule link)
  show "t = export_table index_js rt'"
    using t export_table_cong [of index_js rt' rt] same by simp
  show "\<forall>s \<in> set (requested_modules index_js). \<exists>ns. module_map rt' s = Some (Inr ns)"
    using req same by simp
qed

lemma consistent_evaluate_all:
  "consistent h rt \<Longrightarrow> evaluate_all h ss rt = (r, rt') \<Longrightarrow> aggregator \<notin> set ss \<Longrightarrow>
     consistent h rt'"
proof (induction ss arbitrary: rt)
  case Nil
  then show ?case by simp
next
  case (Cons s ss)
  obtain res rt1 where ev: "evaluate_module h s rt = (res, rt1)"
    by (cases "evaluate_module h s rt")
  from Cons.prems(3) have s: "s \<noteq> aggregator" and ss: "aggregator \<notin> set ss" by auto
  have c1: "consistent h rt1"
    using consistent_evaluate_module [OF Cons.prems(1) ev s] .
  show ?case
  proof (cases res)
    case (Inl e)
    with Cons.prems(2) ev have "rt' = rt1" by simp
    with c1 show ?thesis by simp
  next
    case (Inr ns)
    with Cons.prems(2) ev have "evaluate_all h ss rt1 = (r, rt')" by simp
    from Cons.IH [OF c1 this ss] show ?thesis .
  qed
qed

subsection \<open>Loading the aggregator\<close>

text \<open>The three ways \<open>import_module h aggregator\<close> can go.\<close>

lemma import_aggregator_cases:
  obtains
    (link_failed) e where "link_source h index_js = Some e"
      and "import_module h aggregator rt = (Inl e, rt)"
  | (cached) res where "link_source h index_js = None"
      and "module_map rt aggregator = Some res"
      and "import_module h aggregator rt = (res, rt)"
  | (thrown) e rt1 where "link_source h index_js = None"
      and "module_map rt aggregator = None"
      and "evaluate_all h (requested_modules index_js) rt = (Some e, rt1)"
      and "import_module h aggregator rt =
             (Inl e, rt1\<lparr>module_map := (module_map rt1)(aggregator \<mapsto> Inl e)\<rparr>)"
  | (built) rt1 where "link_source h index_js = None"
      and "module_map rt aggregator = None"
      and "evaluate_all h (requested_modules index_js) rt = (None, rt1)"
      and "import_module h aggregator rt =
             (Inr (export_table index_js rt1),
              rt1\<lparr>module_map := (module_map rt1)(aggregator \<mapsto> Inr (export_table index_js rt1))\<rparr>)"
proof (cases "link_source h index_js")
  case (Some e)
  then have "import_module h aggregator rt = (Inl e, rt)"
    by (simp add: import_module_def load_source_def)
  with Some show ?thesis by (rule link_failed)
next
  case None
  then have imp: "import_module h aggregator rt = evaluate_source h aggregator index_js rt"
    by (simp add: import_module_def load_source_def)
  show ?thesis
  proof (cases "module_map rt aggregator")
    case (Some res)
    with imp have "import_module h aggregator rt = (res, rt)"
      by (simp add: evaluate_source_def)
    with None Some show ?thesis by (rule cached)
  next
    case no: None
    obtain r rt1 where ev: "evaluate_all h (requested_modules index_js) rt = (r, rt1)"
      by (cases "evaluate_all h (requested_modules index_js) rt")
    show ?thesis
    proof (cases r)
      case (Some e)
      with imp no ev show ?thesis
        by (intro thrown [OF None no, of e rt1]) (simp_all add: evaluate_source_def)
    next
      case rnone: None
      with imp no ev show ?thesis
        by (intro built [OF None no, of rt1]) (simp_all add: evaluate_source_def)
    qed
  qed
qed

lemma export_table_upd_aggregator:
  "export_table index_js (rt\<lparr>module_map := (module_map rt)(aggregator \<mapsto> v)\<rparr>) =
     export_table index_js rt"
proof (rule export_table_cong)
  fix s
  assume "s \<in> set (requested_modules index_js)"
  with aggregator_not_requested have "s \<noteq> aggregator" by blast
  then show "module_map (rt\<lparr>module_map := (module_map rt)(aggregator \<mapsto> v)\<rparr>) s = module_map rt s"
    by simp
qed

lemma consistent_record_aggregator:
  assumes c: "consistent h rt1" and link: "link_source h index_js = None"
    and v: "\<And>t. v = Inr t \<Longrightarrow> t = export_table index_js rt1 \<and>
               (\<forall>s \<in> set (requested_modules index_js). \<exists>ns. module_map rt1 s = Some (Inr ns))"
  shows "consistent h (rt1\<lparr>module_map := (module_map rt1)(aggregator \<mapsto> v)\<rparr>)"
  unfolding consistent_def
proof (intro conjI allI impI)
  fix s ns
  assume "s \<noteq> aggregator"
    and "module_map (rt1\<lparr>module_map := (module_map rt1)(aggregator \<mapsto> v)\<rparr>) s = Some (Inr ns)"
  with c show "\<exists>m. h s = Some m \<and> dom ns = set (provides m)"
    by (simp add: consistent_def)
next
  fix t
  assume "module_map (rt1\<lparr>module_map := (module_map rt1)(aggregator \<mapsto> v)\<rparr>) aggregator = Some (Inr t)"
  then have vt: "v = Inr t" by simp
  note facts = v [OF vt]
  show "link_source h index_js = None" by (rule link)
  show "t = export_table index_js (rt1\<lparr>module_map := (module_map rt1)(aggregator \<mapsto> v)\<rparr>)"
    using facts by (simp add: export_table_upd_aggregator)
  show "\<forall>s\<in>set (requested_modules index_js).
          \<exists>ns. module_map (rt1\<lparr>module_map := (module_map rt1)(aggregator \<mapsto> v)\<rparr>) s = Some (Inr ns)"
    using facts aggregator_not_requested by auto
qed

lemma consistent_import_aggregator:
  assumes c: "consistent h rt" and imp: "import_module h aggregator rt = (res, rt')"
  shows "consistent h rt'"
proof (cases h rt rule: import_aggregator_cases)
  case (link_failed e)
  with imp c show ?thesis by simp
next
  case (cached r)
  with imp c show ?thesis by simp
next
  case (thrown e rt1)
  have c1: "consistent h rt1"
    using consistent_evaluate_all [OF c thrown(3) aggregator_not_requested] .
  have "consistent h (rt1\<lparr>module_map := (module_map rt1)(aggregator \<mapsto> Inl e)\<rparr>)"
    by (rule consistent_record_aggregator [OF c1 thrown(1)]) simp
  with thrown(4) imp show ?thesis by simp
next
  case (built rt1)
  have c1: "consistent h rt1"
    using consistent_evaluate_all [OF c built(3) aggregator_not_requested] .
  have "consistent h (rt1\<lparr>module_map := (module_map rt1)(aggregator \<mapsto> Inr (export_table index_js rt1))\<rparr>)"
    by (rule consistent_record_aggregator [OF c1 built(1)])
      (use evaluate_all_recorded [OF built(3)] in auto)
  with built(4) imp show ?thesis by simp
qed

lemma consistent_import_module:
  assumes "consistent h rt" and "import_module h s rt = (res, rt')"
  shows "consistent h rt'"
proof (cases "s = aggregator")
  case True
  with assms consistent_import_aggregator show ?thesis by blast
next
  case False
  with assms(2) have "evaluate_module h s rt = (res, rt')"
    by (simp add: import_module_def)
  from consistent_evaluate_module [OF assms(1) this False] show ?thesis .
qed

lemma import_named_state:
  "snd (import_named h s n rt) = rt \<or> snd (import_named h s n rt) = snd (import_module h s rt)"
  by (auto simp: import_named_def split: option.splits prod.splits sum.splits)

lemma consistent_step:
  assumes "consistent h rt"
  shows "consistent h (step h op rt)"
proof (cases op)
  case (ImportModule s)
  with assms consistent_import_module [of h rt s "fst (import_module h s rt)" "snd (import_module h s rt)"]
  show ?thesis by simp
next
  case (ImportNamed s n)
  with assms import_named_state [of h s n rt]
    consistent_import_module [of h rt s "fst (import_module h s rt)" "snd (import_module h s rt)"]
  show ?thesis by auto
next
  case (Mutate f)
  have "export_table index_js (rt\<lparr>world := f (world rt)\<rparr>) = export_table index_js rt"
    by (rule export_table_cong) simp
  with assms Mutate show ?thesis by (simp add: consistent_def)
qed

lemma consistent_run: "consistent h rt \<Longrightarrow> consistent h (run h ops rt)"
  by (induction ops arbitrary: rt) (simp_all add: consistent_step)

lemma consistent_reachable: "consistent h (run h ops (boot w))"
  by (rule consistent_run [OF consistent_boot])

subsection \<open>Recorded outcomes stay\<close>

lemma import_module_keeps:
  assumes "import_module h s rt = (res, rt')" and "module_map rt k = Some v"
  shows "module_map rt' k = Some v"
proof (cases "s = aggregator")
  case False
  with assms(1) have "evaluate_module h s rt = (res, rt')"
    by (simp add: import_module_def)
  from evaluate_module_keeps [OF this assms(2)] show ?thesis .
next
  case True
  show ?thesis
  proof (cases h rt rule: import_aggregator_cases)
    case (link_failed e)
    with assms True show ?thesis by simp
  next
    case (cached r)
    with assms True show ?thesis by simp
  next
    case (thrown e rt1)
    from thrown(2) assms(2) have "k \<noteq> aggregator" by auto
    with evaluate_all_keeps [OF thrown(3) assms(2)] thrown(4) assms(1) True
    show ?thesis by auto
  next
    case (built rt1)
    from built(2) assms(2) have "k \<noteq> aggregator" by auto
    with evaluate_all_keeps [OF built(3) assms(2)] built(4) assms(1) True
    show ?thesis by auto
  qed
qed

lemma step_keeps:
  assumes "module_map rt k = Some v"
  shows "module_map (step h op rt) k = Some v"
proof (cases op)
  case (ImportModule s)
  with assms import_module_keeps [of h s rt "fst (import_module h s rt)" "snd (import_module h s rt)"]
  show ?thesis by simp
next
  case (ImportNamed s n)
  with assms import_named_state [of h s n rt]
    import_module_keeps [of h s rt "fst (import_module h s rt)" "snd (import_module h s rt)"]
  show ?thesis by auto
next
  case (Mutate f)
  with assms show ?thesis by simp
qed

lemma run_keeps: "module_map rt k = Some v \<Longrightarrow> module_map (run h ops rt) k = Some v"
  by (induction ops arbitrary: rt) (simp_all add: step_keeps)

subsection \<open>A loaded aggregator\<close>

lemma import_aggregator_Inr:
  assumes "import_module h aggregator rt = (Inr t, rt')"
  shows "link_source h index_js = None" and "module_map rt' aggregator = Some (Inr t)"
proof -
  show "link_source h index_js = None"
    by (cases h rt rule: import_aggregator_cases) (use assms in auto)
  show "module_map rt' aggregator = Some (Inr t)"
    by (cases h rt rule: import_aggregator_cases) (use assms in auto)
qed

lemma import_aggregator_again:
  assumes "link_source h index_js = None" and "module_map rt aggregator = Some res"
  shows "import_module h aggregator rt = (res, rt)"
  using assms by (simp add: import_module_def load_source_def evaluate_source_def)

lemma import_named_aggregator_Inr:
  assumes "import_named h aggregator x rt = (Inr r, rt')"
  shows "\<exists>t. import_module h aggregator rt = (Inr t, rt') \<and> t x = Some r"
    and "x \<in> set (exported_names index_js)"
  using assms
  by (auto simp: import_named_def link_consumer_def
           split: option.splits prod.splits sum.splits if_splits)

lemma import_named_aggregator_loaded:
  assumes "link_source h index_js = None" and "module_map rt aggregator = Some (Inr t)"
    and "x \<in> set (exported_names index_js)"
  shows "import_named h aggregator x rt =
           (case t x of None \<Rightarrow> Inl (ExportNotFound aggregator x) | Some r \<Rightarrow> Inr r, rt)"
  using assms import_aggregator_again [OF assms(1,2)]
  by (simp add: import_named_def link_consumer_def split: option.splits)

lemma consistent_underlying:
  assumes "consistent h rt" and "s \<noteq> aggregator" and "module_map rt s = Some (Inr ns)"
  shows "\<exists>m. h s = Some m \<and> dom ns = set (provides m)"
  using assms unfolding consistent_def by blast

lemma table_entry:
  assumes c: "consistent h rt" and t: "module_map rt aggregator = Some (Inr t)"
    and e: "(x, s) \<in> set (import_entries index_js)"
  shows "\<exists>m ns r. h s = Some m \<and> default_name \<in> set (provides m) \<and>
           module_map rt s = Some (Inr ns) \<and> ns default_name = Some r \<and> t x = Some r"
proof -
  from c t have link: "link_source h index_js = None"
    and tab: "t = export_table index_js rt"
    and req: "\<forall>s \<in> set (requested_modules index_js). \<exists>ns. module_map rt s = Some (Inr ns)"
    by (simp_all add: consistent_def)
  from e have sreq: "s \<in> set (requested_modules index_js)"
    by (force simp: set_requested_modules)
  with req obtain ns where ns: "module_map rt s = Some (Inr ns)" by blast
  from sreq aggregator_not_requested have "s \<noteq> aggregator" by blast
  from consistent_underlying [OF c this ns]
  obtain m where m: "h s = Some m" and dom: "dom ns = set (provides m)"
    by blast
  from link_source_ok [OF link e] m have d: "default_name \<in> set (provides m)" by simp
  with dom obtain r where r: "ns default_name = Some r" by blast
  from e have "x \<in> set (exported_names index_js)"
    by (auto simp: exported_is_imported)
  with tab ns r map_of_import_entries_index_js [OF e] have "t x = Some r"
    by (simp add: export_table_def resolve_export_def)
  with m d ns r show ?thesis by blast
qed

lemma table_dom:
  assumes c: "consistent h rt" and t: "module_map rt aggregator = Some (Inr t)"
  shows "dom t = set (exported_names index_js)"
proof
  show "dom t \<subseteq> set (exported_names index_js)"
  proof
    fix x
    assume "x \<in> dom t"
    moreover from c t have "t = export_table index_js rt"
      by (simp add: consistent_def)
    ultimately show "x \<in> set (exported_names index_js)"
      by (auto simp: export_table_def split: if_splits)
  qed
  show "set (exported_names index_js) \<subseteq> dom t"
  proof
    fix x
    assume "x \<in> set (exported_names index_js)"
    then obtain s where "(x, s) \<in> set (import_entries index_js)"
      by (auto simp: exported_is_imported)
    from table_entry [OF c t this] show "x \<in> dom t" by blast
  qed
qed

subsection \<open>The concrete host, evaluated\<close>

lemma mixins_host_simps:
  "mixins_host ''./detection-status.mixin'' = Some fresh_mixin"
  "mixins_host ''./bug-path-length-color.mixin'' = Some fresh_mixin"
  "mixins_host ''./severity.mixin'' = Some fresh_mixin"
  "mixins_host ''./str-to-color.mixin'' = Some fresh_mixin"
  by (simp_all add: mixins_host_def)

lemma evaluate_fresh_mixin:
  assumes "h s = Some fresh_mixin" and "module_map rt s = None"
  shows "evaluate_module h s rt =
           (Inr [default_name \<mapsto> world rt],
            \<lparr>module_map = (module_map rt)(s \<mapsto> Inr [default_name \<mapsto> world rt]),
             world = Suc (world rt)\<rparr>)"
proof -
  have "namespace_of fresh_mixin (\<lambda>n. world rt) = [default_name \<mapsto> world rt]"
    by (rule ext) (simp add: namespace_of_def fresh_mixin_def)
  moreover have "initialise fresh_mixin (world rt) = (Some (\<lambda>n. world rt), Suc (world rt))"
    by (simp add: fresh_mixin_def)
  ultimately show ?thesis
    using assms by (simp add: evaluate_module_def)
qed

lemma link_source_mixins_host: "link_source mixins_host index_js = None"
  by (simp add: link_source_index_js requested_modules_index_js import_entries_index_js
        mixins_host_simps fresh_mixin_def)

lemma evaluate_all_mixins_host:
  "evaluate_all mixins_host (requested_modules index_js) (boot 0) =
     (None,
      \<lparr>module_map =
         [''./detection-status.mixin'' \<mapsto> Inr [default_name \<mapsto> 0],
          ''./bug-path-length-color.mixin'' \<mapsto> Inr [default_name \<mapsto> 1],
          ''./severity.mixin'' \<mapsto> Inr [default_name \<mapsto> 2],
          ''./str-to-color.mixin'' \<mapsto> Inr [default_name \<mapsto> 3]],
       world = 4\<rparr>)"
  by (simp add: requested_modules_index_js evaluate_fresh_mixin mixins_host_simps boot_def
        eval_nat_numeral)

lemma export_table_mixins_host:
  "export_table index_js
     \<lparr>module_map =
         [''./detection-status.mixin'' \<mapsto> Inr [default_name \<mapsto> 0],
          ''./bug-path-length-color.mixin'' \<mapsto> Inr [default_name \<mapsto> 1],
          ''./severity.mixin'' \<mapsto> Inr [default_name \<mapsto> 2],
          ''./str-to-color.mixin'' \<mapsto> Inr [default_name \<mapsto> 3]],
       world = (4::nat)\<rparr> = mixins_table"
  by (rule ext)
    (simp add: export_table_def resolve_export_def exported_names_index_js
       import_entries_index_js mixins_table_def)

lemma import_aggregator_mixins_host:
  "import_module mixins_host aggregator (boot 0) = (Inr mixins_table, mixins_loaded)"
proof (cases mixins_host "boot (0::nat)" rule: import_aggregator_cases)
  case (link_failed e)
  then show ?thesis by (simp add: link_source_mixins_host)
next
  case (cached res)
  then show ?thesis by (simp add: boot_def)
next
  case (thrown e rt1)
  then show ?thesis by (simp add: evaluate_all_mixins_host)
next
  case (built rt1)
  from built(3) have rt1: "rt1 = \<lparr>module_map =
         [''./detection-status.mixin'' \<mapsto> Inr [default_name \<mapsto> 0],
          ''./bug-path-length-color.mixin'' \<mapsto> Inr [default_name \<mapsto> 1],
          ''./severity.mixin'' \<mapsto> Inr [default_name \<mapsto> 2],
          ''./str-to-color.mixin'' \<mapsto> Inr [default_name \<mapsto> 3]],
       world = 4\<rparr>"
    by (simp add: evaluate_all_mixins_host)
  show ?thesis
    unfolding built(4) unfolding rt1 export_table_mixins_host
    by (simp add: mixins_loaded_def)
qed

lemma import_named_aggregator_mixins_host:
  "import_named mixins_host aggregator ''SeverityMixin'' (boot 0) = (Inr 2, mixins_loaded)"
  by (simp add: import_named_def link_consumer_def link_source_mixins_host
        exported_names_index_js import_aggregator_mixins_host mixins_table_def)

lemma import_default_severity_first:
  "import_default mixins_host ''./severity.mixin'' (boot 0) =
     (Inr 0, severity_loaded)"
  by (simp add: import_default_def import_named_def link_consumer_def import_module_def
        aggregator_def mixins_host_simps evaluate_fresh_mixin boot_def severity_loaded_def)
    (simp add: fresh_mixin_def)

lemma evaluate_all_after_severity:
  "evaluate_all mixins_host (requested_modules index_js)
     severity_loaded =
     (None,
      \<lparr>module_map =
         [''./severity.mixin'' \<mapsto> Inr [default_name \<mapsto> 0],
          ''./detection-status.mixin'' \<mapsto> Inr [default_name \<mapsto> 1],
          ''./bug-path-length-color.mixin'' \<mapsto> Inr [default_name \<mapsto> 2],
          ''./str-to-color.mixin'' \<mapsto> Inr [default_name \<mapsto> 3]],
       world = 4\<rparr>)"
  by (simp add: requested_modules_index_js evaluate_fresh_mixin mixins_host_simps
        evaluate_module_cached [of mixins_host _ fresh_mixin] eval_nat_numeral
        severity_loaded_def)

lemma import_named_aggregator_after_severity:
  "\<exists>rt2. import_named mixins_host aggregator ''SeverityMixin''
     severity_loaded =
     (Inr 0, rt2)"
proof (cases mixins_host
    severity_loaded
    rule: import_aggregator_cases)
  case (link_failed e)
  then show ?thesis by (simp add: link_source_mixins_host)
next
  case (cached res)
  then show ?thesis by (simp add: aggregator_def severity_loaded_def)
next
  case (thrown e rt1)
  from thrown(3) [unfolded evaluate_all_after_severity] show ?thesis by simp
next
  case (built rt1)
  from built(3) [unfolded evaluate_all_after_severity]
  have rt1: "rt1 = \<lparr>module_map =
         [''./severity.mixin'' \<mapsto> Inr [default_name \<mapsto> 0],
          ''./detection-status.mixin'' \<mapsto> Inr [default_name \<mapsto> 1],
          ''./bug-path-length-color.mixin'' \<mapsto> Inr [default_name \<mapsto> 2],
          ''./str-to-color.mixin'' \<mapsto> Inr [default_name \<mapsto> 3]],
       world = 4\<rparr>"
    by simp
  have "export_table index_js rt1 ''SeverityMixin'' = Some 0"
    unfolding rt1
    by (simp add: export_table_def resolve_export_def exported_names_index_js
          import_entries_index_js)
  then show ?thesis
    by (simp add: import_named_def link_consumer_def link_source_mixins_host
          exported_names_index_js built(4))
qed

subsection \<open>Importing an underlying module directly\<close>

lemma import_named_underlying_cached:
  assumes "s \<noteq> aggregator" and "h s = Some m" and "n \<in> set (provides m)"
    and "module_map rt s = Some (Inr ns)" and "ns n = Some r"
  shows "import_named h s n rt = (Inr r, rt)"
  using assms evaluate_module_cached [of h s m rt "Inr ns"]
  by (simp add: import_named_def link_consumer_def import_module_def)

lemma import_named_underlying_Inr:
  assumes "s \<noteq> aggregator" and "import_named h s n rt = (Inr r, rt')"
  shows "\<exists>ns. module_map rt' s = Some (Inr ns) \<and> ns n = Some r"
proof -
  from assms obtain ns where ev: "evaluate_module h s rt = (Inr ns, rt')" and r: "ns n = Some r"
    by (auto simp: import_named_def import_module_def
          split: option.splits prod.splits sum.splits)
  from evaluate_module_recorded [OF ev] r show ?thesis by blast
qed

lemma import_named_consistent:
  assumes "consistent h rt" and "import_named h s n rt = (res, rt')"
  shows "consistent h rt'"
proof -
  from import_named_state [of h s n rt] assms(2)
  have "rt' = rt \<or> rt' = snd (import_module h s rt)" by simp
  with assms(1)
    consistent_import_module [of h rt s "fst (import_module h s rt)" "snd (import_module h s rt)"]
  show ?thesis by auto
qed

lemma import_named_keeps:
  assumes "import_named h s n rt = (res, rt')" and "module_map rt k = Some v"
  shows "module_map rt' k = Some v"
proof -
  from import_named_state [of h s n rt] assms(1)
  have "rt' = rt \<or> rt' = snd (import_module h s rt)" by simp
  with assms(2)
    import_module_keeps [of h s rt "fst (import_module h s rt)" "snd (import_module h s rt)"]
  show ?thesis by auto
qed

lemma index_js_entries:
  "set (import_entries index_js) =
     {(''BugPathLengthColorMixin'', ''./bug-path-length-color.mixin''),
      (''DetectionStatusMixin'', ''./detection-status.mixin''),
      (''SeverityMixin'', ''./severity.mixin''),
      (''StrToColorMixin'', ''./str-to-color.mixin'')}"
  by (simp add: import_entries_index_js insert_commute)

lemma entry_not_aggregator:
  assumes "(x, s) \<in> set (import_entries index_js)"
  shows "s \<noteq> aggregator"
proof -
  from assms have "s \<in> set (requested_modules index_js)"
    by (force simp: set_requested_modules)
  with aggregator_not_requested show ?thesis by blast
qed

subsection \<open>Further facts about evaluation and well-formed states\<close>

lemma evaluate_all_idle:
  "\<forall>s \<in> set ss. module_map rt s \<noteq> None \<Longrightarrow> snd (evaluate_all h ss rt) = rt"
proof (induction ss)
  case Nil
  then show ?case by simp
next
  case (Cons s ss)
  then obtain res where "module_map rt s = Some res" by auto
  then have "evaluate_module h s rt = (res, rt) \<or>
             evaluate_module h s rt = (Inl (ModuleNotFound s), rt)"
    by (simp add: evaluate_module_def split: option.splits)
  with Cons show ?case
    by (auto split: sum.splits)
qed

lemma consistent_table:
  assumes "consistent h rt" and "module_map rt aggregator = Some (Inr t)"
  shows "export_table index_js rt = t"
  using assms unfolding consistent_def by blast

lemma import_entries_one_module:
  assumes "(x, s) \<in> set (import_entries index_js)" and "(x, s') \<in> set (import_entries index_js)"
  shows "s' = s"
  using map_of_import_entries_index_js [OF assms(1)] map_of_import_entries_index_js [OF assms(2)]
  by simp

lemma distinct_snd_one_name:
  "distinct (map snd es) \<Longrightarrow> (x, s) \<in> set es \<Longrightarrow> (y, s) \<in> set es \<Longrightarrow> y = x"
  by (induction es) force+

lemma import_entries_one_name:
  assumes "(x, s) \<in> set (import_entries index_js)" and "(y, s) \<in> set (import_entries index_js)"
  shows "y = x"
proof -
  have "distinct (map snd (import_entries index_js))"
    by (simp add: import_entries_index_js)
  from distinct_snd_one_name [OF this assms] show ?thesis .
qed

section \<open>The claims\<close>

text \<open>
  C1: for each of the four identifiers, the reference obtained by importing the
  identifier from the aggregator is the reference obtained by importing the default
  export of the corresponding mixin module directly, in whichever order the two imports
  happen, in any state the process can reach: the aggregator passes the reference
  through as it is.
\<close>

theorem aggregator_is_identity_pass_through:
  assumes "(x, s) \<in>
      {(''BugPathLengthColorMixin'', ''./bug-path-length-color.mixin''),
       (''DetectionStatusMixin'', ''./detection-status.mixin''),
       (''SeverityMixin'', ''./severity.mixin''),
       (''StrToColorMixin'', ''./str-to-color.mixin'')}"
    and "rt = run h ops (boot w)"
  shows "(import_named h aggregator x rt = (Inr r, rt1) \<longrightarrow>
            import_default h s rt1 = (Inr r, rt1)) \<and>
         (import_default h s rt = (Inr r, rt1) \<and>
          import_named h aggregator x rt1 = (Inr r', rt2) \<longrightarrow> r' = r)"
proof (intro conjI impI)
  from assms(1) have e: "(x, s) \<in> set (import_entries index_js)"
    by (simp only: index_js_entries)
  have c: "consistent h rt"
    unfolding assms(2) by (rule consistent_reachable)
  {
    assume imp: "import_named h aggregator x rt = (Inr r, rt1)"
    from import_named_aggregator_Inr(1) [OF imp]
    obtain t where load: "import_module h aggregator rt = (Inr t, rt1)" and tx: "t x = Some r"
      by blast
    have c1: "consistent h rt1"
      using consistent_import_aggregator [OF c load] .
    from table_entry [OF c1 import_aggregator_Inr(2) [OF load] e] tx
    obtain m ns where "h s = Some m" and "default_name \<in> set (provides m)"
      and "module_map rt1 s = Some (Inr ns)" and "ns default_name = Some r"
      by auto
    then show "import_default h s rt1 = (Inr r, rt1)"
      unfolding import_default_def
      by (intro import_named_underlying_cached [OF entry_not_aggregator [OF e]])
  }
  {
    assume both: "import_default h s rt = (Inr r, rt1) \<and>
                  import_named h aggregator x rt1 = (Inr r', rt2)"
    then have direct: "import_named h s default_name rt = (Inr r, rt1)"
      and imp: "import_named h aggregator x rt1 = (Inr r', rt2)"
      by (simp_all add: import_default_def)
    from import_named_underlying_Inr [OF entry_not_aggregator [OF e] direct]
    obtain ns where ns: "module_map rt1 s = Some (Inr ns)" and r: "ns default_name = Some r"
      by blast
    have c1: "consistent h rt1"
      using import_named_consistent [OF c direct] .
    from import_named_aggregator_Inr(1) [OF imp]
    obtain t where load: "import_module h aggregator rt1 = (Inr t, rt2)" and tx: "t x = Some r'"
      by blast
    have c2: "consistent h rt2"
      using consistent_import_aggregator [OF c1 load] .
    from table_entry [OF c2 import_aggregator_Inr(2) [OF load] e] tx
    obtain ns' where ns': "module_map rt2 s = Some (Inr ns')" and r': "ns' default_name = Some r'"
      by auto
    from import_module_keeps [OF load ns] ns' have "ns' = ns" by simp
    with r r' show "r' = r" by simp
  }
qed

theorem aggregator_is_identity_pass_through_witness:
  "(''SeverityMixin'', ''./severity.mixin'') \<in>
      {(''BugPathLengthColorMixin'', ''./bug-path-length-color.mixin''),
       (''DetectionStatusMixin'', ''./detection-status.mixin''),
       (''SeverityMixin'', ''./severity.mixin''),
       (''StrToColorMixin'', ''./str-to-color.mixin'')} \<and>
   import_named mixins_host aggregator ''SeverityMixin'' (run mixins_host [] (boot 0)) =
     (Inr 2, mixins_loaded) \<and>
   import_default mixins_host ''./severity.mixin'' mixins_loaded = (Inr 2, mixins_loaded) \<and>
   import_default mixins_host ''./severity.mixin'' (run mixins_host [] (boot 0)) =
     (Inr 0, severity_loaded) \<and>
   (\<exists>rt2. import_named mixins_host aggregator ''SeverityMixin''
      severity_loaded =
      (Inr 0, rt2))"
proof -
  have mem: "(''SeverityMixin'', ''./severity.mixin'') \<in>
      {(''BugPathLengthColorMixin'', ''./bug-path-length-color.mixin''),
       (''DetectionStatusMixin'', ''./detection-status.mixin''),
       (''SeverityMixin'', ''./severity.mixin''),
       (''StrToColorMixin'', ''./str-to-color.mixin'')}"
    by simp
  have start: "boot 0 = run mixins_host [] (boot (0::nat))"
    by simp
  note pass = aggregator_is_identity_pass_through [OF mem start, of 2 mixins_loaded]
  from pass import_named_aggregator_mixins_host
  have "import_default mixins_host ''./severity.mixin'' mixins_loaded = (Inr 2, mixins_loaded)"
    by blast
  with mem import_named_aggregator_mixins_host import_default_severity_first
    import_named_aggregator_after_severity
  show ?thesis by simp
qed

text \<open>
  C2: the export table of the aggregator has exactly the four names
  BugPathLengthColorMixin, DetectionStatusMixin, SeverityMixin and StrToColorMixin: they
  are the names of its export list, and whenever the aggregator loads, in any state the
  process can reach, the domain of the table it yields is that set.
\<close>

theorem export_table_has_exactly_four_names:
  "exported_names index_js =
     [''BugPathLengthColorMixin'', ''DetectionStatusMixin'', ''SeverityMixin'',
      ''StrToColorMixin''] \<and>
   (import_module h aggregator (run h ops (boot w)) = (Inr t, rt') \<longrightarrow>
      dom t =
        {''BugPathLengthColorMixin'', ''DetectionStatusMixin'', ''SeverityMixin'',
         ''StrToColorMixin''})"
proof (intro conjI impI)
  show "exported_names index_js =
     [''BugPathLengthColorMixin'', ''DetectionStatusMixin'', ''SeverityMixin'',
      ''StrToColorMixin'']"
    by (rule exported_names_index_js)
next
  assume imp: "import_module h aggregator (run h ops (boot w)) = (Inr t, rt')"
  have "consistent h rt'"
    using consistent_import_aggregator [OF consistent_reachable imp] .
  from table_dom [OF this import_aggregator_Inr(2) [OF imp]]
  show "dom t =
        {''BugPathLengthColorMixin'', ''DetectionStatusMixin'', ''SeverityMixin'',
         ''StrToColorMixin''}"
    by (simp add: exported_names_index_js)
qed

theorem export_table_has_exactly_four_names_witness:
  "import_module mixins_host aggregator (run mixins_host [] (boot 0)) =
     (Inr mixins_table, mixins_loaded) \<and>
   dom mixins_table =
     {''BugPathLengthColorMixin'', ''DetectionStatusMixin'', ''SeverityMixin'',
      ''StrToColorMixin''}"
  using export_table_has_exactly_four_names [of mixins_host "[]" 0 mixins_table mixins_loaded]
    import_aggregator_mixins_host
  by simp

text \<open>
  C3: every name of the export table resolves to exactly one externally supplied
  definition, with no renaming, transformation or merging. An exported name is the local
  name of exactly one import declaration of the file, no other exported name is imported
  from the same module, and whenever the aggregator loads, in any state the process can
  reach, the table binds the name to the very reference that the namespace of that
  module holds under \<open>default\<close>.
\<close>

theorem exported_names_are_bound_to_defaults:
  assumes "x \<in> {''BugPathLengthColorMixin'', ''DetectionStatusMixin'', ''SeverityMixin'',
                 ''StrToColorMixin''}"
  shows "(\<exists>!s. (x, s) \<in> set (import_entries index_js)) \<and>
         (\<forall>y s. (x, s) \<in> set (import_entries index_js) \<and>
                 (y, s) \<in> set (import_entries index_js) \<longrightarrow> y = x) \<and>
         (import_module h aggregator (run h ops (boot w)) = (Inr t, rt') \<longrightarrow>
            (\<exists>s m ns r.
               (x, s) \<in> set (import_entries index_js) \<and>
               s \<in> {''./detection-status.mixin'', ''./bug-path-length-color.mixin'',
                     ''./severity.mixin'', ''./str-to-color.mixin''} \<and>
               h s = Some m \<and> module_map rt' s = Some (Inr ns) \<and>
               ns default_name = Some r \<and> t x = Some r))"
proof (intro conjI impI)
  from assms have "x \<in> set (exported_names index_js)"
    by (simp add: exported_names_index_js)
  then obtain s where e: "(x, s) \<in> set (import_entries index_js)"
    by (auto simp: exported_is_imported)
  show "\<exists>!s. (x, s) \<in> set (import_entries index_js)"
  proof (rule ex1I)
    show "(x, s) \<in> set (import_entries index_js)" by (rule e)
    fix s'
    assume "(x, s') \<in> set (import_entries index_js)"
    with e show "s' = s" by (rule import_entries_one_module)
  qed
  show "\<forall>y s. (x, s) \<in> set (import_entries index_js) \<and>
                 (y, s) \<in> set (import_entries index_js) \<longrightarrow> y = x"
  proof (intro allI impI)
    fix y s'
    assume "(x, s') \<in> set (import_entries index_js) \<and> (y, s') \<in> set (import_entries index_js)"
    then show "y = x" using import_entries_one_name [of x s' y] by simp
  qed
  assume load: "import_module h aggregator (run h ops (boot w)) = (Inr t, rt')"
  have c': "consistent h rt'"
    using consistent_import_aggregator [OF consistent_reachable load] .
  from e have "s \<in> set (requested_modules index_js)"
    by (force simp: set_requested_modules)
  then have s: "s \<in> {''./detection-status.mixin'', ''./bug-path-length-color.mixin'',
                     ''./severity.mixin'', ''./str-to-color.mixin''}"
    by (simp add: requested_modules_index_js)
  from table_entry [OF c' import_aggregator_Inr(2) [OF load] e]
  obtain m ns r where m: "h s = Some m" and ns: "module_map rt' s = Some (Inr ns)"
    and r: "ns default_name = Some r" and tx: "t x = Some r"
    by blast
  show "\<exists>s m ns r.
               (x, s) \<in> set (import_entries index_js) \<and>
               s \<in> {''./detection-status.mixin'', ''./bug-path-length-color.mixin'',
                     ''./severity.mixin'', ''./str-to-color.mixin''} \<and>
               h s = Some m \<and> module_map rt' s = Some (Inr ns) \<and>
               ns default_name = Some r \<and> t x = Some r"
    by (intro exI conjI) (rule e s m ns r tx)+
qed


theorem exported_names_are_bound_to_defaults_witness:
  "''SeverityMixin'' \<in> {''BugPathLengthColorMixin'', ''DetectionStatusMixin'', ''SeverityMixin'',
                 ''StrToColorMixin''} \<and>
   (\<exists>!s. (''SeverityMixin'', s) \<in> set (import_entries index_js)) \<and>
   import_module mixins_host aggregator (run mixins_host [] (boot 0)) =
     (Inr mixins_table, mixins_loaded) \<and>
   (\<exists>s m ns r.
      (''SeverityMixin'', s) \<in> set (import_entries index_js) \<and>
      s \<in> {''./detection-status.mixin'', ''./bug-path-length-color.mixin'',
            ''./severity.mixin'', ''./str-to-color.mixin''} \<and>
      mixins_host s = Some m \<and> module_map mixins_loaded s = Some (Inr ns) \<and>
      ns default_name = Some r \<and> mixins_table ''SeverityMixin'' = Some r)"
proof -
  have inside: "''SeverityMixin'' \<in> {''BugPathLengthColorMixin'', ''DetectionStatusMixin'',
      ''SeverityMixin'', ''StrToColorMixin''}"
    by simp
  have load: "import_module mixins_host aggregator (run mixins_host [] (boot 0)) =
     (Inr mixins_table, mixins_loaded)"
    by (simp add: import_aggregator_mixins_host)
  note inst = exported_names_are_bound_to_defaults
      [OF inside, of mixins_host "[]" 0 mixins_table mixins_loaded]
  from inst have one: "\<exists>!s. (''SeverityMixin'', s) \<in> set (import_entries index_js)"
    by (rule conjunct1)
  from inst [THEN conjunct2, THEN conjunct2] load
  have bound: "\<exists>s m ns r.
      (''SeverityMixin'', s) \<in> set (import_entries index_js) \<and>
      s \<in> {''./detection-status.mixin'', ''./bug-path-length-color.mixin'',
            ''./severity.mixin'', ''./str-to-color.mixin''} \<and>
      mixins_host s = Some m \<and> module_map mixins_loaded s = Some (Inr ns) \<and>
      ns default_name = Some r \<and> mixins_table ''SeverityMixin'' = Some r"
    by (rule mp)
  show ?thesis
    by (intro conjI) (rule inside one load bound)+
qed

text \<open>
  C4: if one of the four underlying modules cannot be located, importing the aggregator
  fails with a resolution error that names a missing module, nothing is evaluated or
  recorded, and every import of a name from the aggregator fails with the same error. In
  any state the process can reach there is no partial export set: either the aggregator
  fails to load, and then so does every consumer importing a name from it, or the table
  it yields binds all four names.
\<close>

theorem missing_mixin_is_fatal:
  assumes "rt = run h ops (boot w)"
  shows "(s \<in> {''./detection-status.mixin'', ''./bug-path-length-color.mixin'',
               ''./severity.mixin'', ''./str-to-color.mixin''} \<and> h s = None \<longrightarrow>
            (\<exists>s'. h s' = None \<and>
               import_module h aggregator rt = (Inl (ModuleNotFound s'), rt) \<and>
               (\<forall>n. import_named h aggregator n rt = (Inl (ModuleNotFound s'), rt)))) \<and>
         ((\<exists>e. fst (import_module h aggregator rt) = Inl e \<and>
               (\<forall>n. \<exists>e'. fst (import_named h aggregator n rt) = Inl e')) \<or>
          (\<exists>t. fst (import_module h aggregator rt) = Inr t \<and>
               (\<exists>r1 r2 r3 r4.
                  t ''BugPathLengthColorMixin'' = Some r1 \<and> t ''DetectionStatusMixin'' = Some r2 \<and>
                  t ''SeverityMixin'' = Some r3 \<and> t ''StrToColorMixin'' = Some r4)))"
proof (intro conjI impI)
  assume "s \<in> {''./detection-status.mixin'', ''./bug-path-length-color.mixin'',
               ''./severity.mixin'', ''./str-to-color.mixin''} \<and> h s = None"
  then have "s \<in> set (requested_modules index_js)" and "h s = None"
    by (simp_all add: requested_modules_index_js)
  from link_source_missing [of s h, OF this]
  obtain s' where s': "h s' = None" and link: "link_source h index_js = Some (ModuleNotFound s')"
    by blast
  from link have "import_module h aggregator rt = (Inl (ModuleNotFound s'), rt)"
    by (simp add: import_module_def load_source_def)
  moreover from link have "\<forall>n. import_named h aggregator n rt = (Inl (ModuleNotFound s'), rt)"
    by (simp add: import_named_def link_consumer_def)
  ultimately show "\<exists>s'. h s' = None \<and>
               import_module h aggregator rt = (Inl (ModuleNotFound s'), rt) \<and>
               (\<forall>n. import_named h aggregator n rt = (Inl (ModuleNotFound s'), rt))"
    using s' by blast
next
  have c: "consistent h rt"
    unfolding assms by (rule consistent_reachable)
  obtain res rt' where load: "import_module h aggregator rt = (res, rt')"
    by (cases "import_module h aggregator rt")
  show "(\<exists>e. fst (import_module h aggregator rt) = Inl e \<and>
               (\<forall>n. \<exists>e'. fst (import_named h aggregator n rt) = Inl e')) \<or>
          (\<exists>t. fst (import_module h aggregator rt) = Inr t \<and>
               (\<exists>r1 r2 r3 r4.
                  t ''BugPathLengthColorMixin'' = Some r1 \<and> t ''DetectionStatusMixin'' = Some r2 \<and>
                  t ''SeverityMixin'' = Some r3 \<and> t ''StrToColorMixin'' = Some r4))"
  proof (cases res)
    case (Inl e)
    with load have "\<exists>e'. fst (import_named h aggregator n rt) = Inl e'" for n
      by (simp add: import_named_def split: option.splits)
    with load Inl show ?thesis by simp
  next
    case (Inr t)
    with load have load: "import_module h aggregator rt = (Inr t, rt')" by simp
    have c': "consistent h rt'"
      using consistent_import_aggregator [OF c load] .
    note entry = table_entry [OF c' import_aggregator_Inr(2) [OF load]]
    have "(''BugPathLengthColorMixin'', ''./bug-path-length-color.mixin'') \<in>
        set (import_entries index_js)"
      by (simp add: import_entries_index_js)
    from entry [OF this] obtain r1 where r1: "t ''BugPathLengthColorMixin'' = Some r1"
      by blast
    have "(''DetectionStatusMixin'', ''./detection-status.mixin'') \<in>
        set (import_entries index_js)"
      by (simp add: import_entries_index_js)
    from entry [OF this] obtain r2 where r2: "t ''DetectionStatusMixin'' = Some r2"
      by blast
    have "(''SeverityMixin'', ''./severity.mixin'') \<in> set (import_entries index_js)"
      by (simp add: import_entries_index_js)
    from entry [OF this] obtain r3 where r3: "t ''SeverityMixin'' = Some r3"
      by blast
    have "(''StrToColorMixin'', ''./str-to-color.mixin'') \<in> set (import_entries index_js)"
      by (simp add: import_entries_index_js)
    from entry [OF this] obtain r4 where r4: "t ''StrToColorMixin'' = Some r4"
      by blast
    from load have "fst (import_module h aggregator rt) = Inr t"
      by simp
    with r1 r2 r3 r4 show ?thesis by blast
  qed
qed

theorem missing_mixin_is_fatal_witness:
  "boot 0 = run broken_host [] (boot 0) \<and>
   ''./severity.mixin'' \<in> {''./detection-status.mixin'', ''./bug-path-length-color.mixin'',
               ''./severity.mixin'', ''./str-to-color.mixin''} \<and>
   broken_host ''./severity.mixin'' = None \<and>
   (\<exists>s'. broken_host s' = None \<and>
      import_module broken_host aggregator (boot 0) = (Inl (ModuleNotFound s'), boot 0) \<and>
      (\<forall>n. import_named broken_host aggregator n (boot 0) = (Inl (ModuleNotFound s'), boot 0))) \<and>
   boot 0 = run mixins_host [] (boot 0) \<and>
   fst (import_module mixins_host aggregator (boot 0)) = Inr mixins_table"
proof -
  have start: "boot 0 = run broken_host [] (boot (0::nat))"
    by simp
  have missing: "''./severity.mixin'' \<in> {''./detection-status.mixin'', ''./bug-path-length-color.mixin'',
               ''./severity.mixin'', ''./str-to-color.mixin''} \<and>
      broken_host ''./severity.mixin'' = None"
    by (simp add: broken_host_def)
  from missing_mixin_is_fatal [OF start, of "''./severity.mixin''"] missing start
    import_aggregator_mixins_host
  show ?thesis by simp
qed

text \<open>
  C5: a name resolves through the aggregator if and only if it is one of the four
  exported names (and the aggregator itself loads). Importing any other name fails and
  leaves the state as it was: with the linking error of the aggregator if there is one,
  and otherwise with the error that the aggregator has no export of that name.
\<close>

theorem only_the_four_names_resolve:
  assumes "rt = run h ops (boot w)"
  shows "((\<exists>r rt'. import_named h aggregator n rt = (Inr r, rt')) \<longleftrightarrow>
            n \<in> {''BugPathLengthColorMixin'', ''DetectionStatusMixin'', ''SeverityMixin'',
                 ''StrToColorMixin''} \<and>
            (\<exists>t rt'. import_module h aggregator rt = (Inr t, rt'))) \<and>
         (n \<notin> {''BugPathLengthColorMixin'', ''DetectionStatusMixin'', ''SeverityMixin'',
                 ''StrToColorMixin''} \<longrightarrow>
            import_named h aggregator n rt =
              (Inl (case link_source h index_js of
                      Some e \<Rightarrow> e
                    | None \<Rightarrow> ExportNotFound aggregator n), rt))"
proof (intro conjI impI iffI)
  assume "\<exists>r rt'. import_named h aggregator n rt = (Inr r, rt')"
  then obtain r rt' where imp: "import_named h aggregator n rt = (Inr r, rt')"
    by blast
  from import_named_aggregator_Inr [OF imp]
  show "n \<in> {''BugPathLengthColorMixin'', ''DetectionStatusMixin'', ''SeverityMixin'',
                 ''StrToColorMixin''}"
    and "\<exists>t rt'. import_module h aggregator rt = (Inr t, rt')"
    by (auto simp: exported_names_index_js)
next
  assume "n \<in> {''BugPathLengthColorMixin'', ''DetectionStatusMixin'', ''SeverityMixin'',
                 ''StrToColorMixin''} \<and>
          (\<exists>t rt'. import_module h aggregator rt = (Inr t, rt'))"
  then obtain t rt' where n: "n \<in> set (exported_names index_js)"
    and load: "import_module h aggregator rt = (Inr t, rt')"
    by (auto simp: exported_names_index_js)
  have "consistent h rt"
    unfolding assms by (rule consistent_reachable)
  then have c': "consistent h rt'"
    using load by (rule consistent_import_aggregator)
  from n obtain s where "(n, s) \<in> set (import_entries index_js)"
    by (auto simp: exported_is_imported)
  from table_entry [OF c' import_aggregator_Inr(2) [OF load] this]
  obtain r where "t n = Some r" by blast
  with n load import_aggregator_Inr(1) [OF load]
  have "import_named h aggregator n rt = (Inr r, rt')"
    by (simp add: import_named_def link_consumer_def)
  then show "\<exists>r rt'. import_named h aggregator n rt = (Inr r, rt')"
    by blast
next
  assume "n \<notin> {''BugPathLengthColorMixin'', ''DetectionStatusMixin'', ''SeverityMixin'',
                 ''StrToColorMixin''}"
  then have "n \<notin> set (exported_names index_js)"
    by (simp add: exported_names_index_js)
  then show "import_named h aggregator n rt =
              (Inl (case link_source h index_js of
                      Some e \<Rightarrow> e
                    | None \<Rightarrow> ExportNotFound aggregator n), rt)"
    by (simp add: import_named_def link_consumer_def split: option.splits)
qed

theorem only_the_four_names_resolve_witness:
  "boot 0 = run mixins_host [] (boot 0) \<and>
   import_named mixins_host aggregator ''SeverityMixin'' (boot 0) = (Inr 2, mixins_loaded) \<and>
   ''SeverityMixin'' \<in> {''BugPathLengthColorMixin'', ''DetectionStatusMixin'', ''SeverityMixin'',
                 ''StrToColorMixin''} \<and>
   import_module mixins_host aggregator (boot 0) = (Inr mixins_table, mixins_loaded) \<and>
   ''SeverityMixins'' \<notin> {''BugPathLengthColorMixin'', ''DetectionStatusMixin'', ''SeverityMixin'',
                 ''StrToColorMixin''} \<and>
   import_named mixins_host aggregator ''SeverityMixins'' (boot 0) =
     (Inl (ExportNotFound aggregator ''SeverityMixins''), boot 0)"
proof -
  have start: "boot 0 = run mixins_host [] (boot (0::nat))"
    by simp
  have out: "''SeverityMixins'' \<notin> {''BugPathLengthColorMixin'', ''DetectionStatusMixin'',
      ''SeverityMixin'', ''StrToColorMixin''}"
    by simp
  have inside: "''SeverityMixin'' \<in> {''BugPathLengthColorMixin'', ''DetectionStatusMixin'',
      ''SeverityMixin'', ''StrToColorMixin''}"
    by simp
  from only_the_four_names_resolve [OF start, of "''SeverityMixins''"] out
  have "import_named mixins_host aggregator ''SeverityMixins'' (boot 0) =
     (Inl (ExportNotFound aggregator ''SeverityMixins''), boot 0)"
    by (simp add: link_source_mixins_host)
  with start out inside import_named_aggregator_mixins_host import_aggregator_mixins_host
  show ?thesis by (simp only: simp_thms)
qed

text \<open>
  C6: resolution through the aggregator is idempotent within a process. Once a name has
  been imported from the aggregator, importing it again, after any further operations
  of the process (other imports, imports of the aggregator itself, any code run on the
  world), yields the same reference as the first import, and that later import changes
  nothing.
\<close>

theorem aggregator_import_is_idempotent:
  assumes "import_named h aggregator x rt = (Inr r, rt1)"
  shows "import_named h aggregator x (run h ops rt1) = (Inr r, run h ops rt1)"
proof -
  from import_named_aggregator_Inr [OF assms]
  obtain t where load: "import_module h aggregator rt = (Inr t, rt1)" and tx: "t x = Some r"
    and x: "x \<in> set (exported_names index_js)"
    by blast
  note link = import_aggregator_Inr(1) [OF load]
  have "module_map (run h ops rt1) aggregator = Some (Inr t)"
    using import_aggregator_Inr(2) [OF load] by (rule run_keeps)
  from import_named_aggregator_loaded [OF link this x] tx show ?thesis by simp
qed

theorem aggregator_import_is_idempotent_witness:
  "import_named mixins_host aggregator ''SeverityMixin'' (boot 0) = (Inr 2, mixins_loaded) \<and>
   import_named mixins_host aggregator ''SeverityMixin''
     (run mixins_host
        [ImportNamed aggregator ''SeverityMixin'', Mutate Suc,
         ImportModule ''./severity.mixin'', ImportNamed aggregator ''StrToColorMixin'']
        mixins_loaded) =
     (Inr 2,
      run mixins_host
        [ImportNamed aggregator ''SeverityMixin'', Mutate Suc,
         ImportModule ''./severity.mixin'', ImportNamed aggregator ''StrToColorMixin'']
        mixins_loaded)"
  using aggregator_import_is_idempotent [OF import_named_aggregator_mixins_host]
    import_named_aggregator_mixins_host
  by blast

text \<open>
  C7: the export table is built once, when the aggregator is first loaded, and never
  changes afterwards: after a successful load, whatever the process does next (imports
  and reads by any consumer, any code run on the world), the table recorded for the
  aggregator is still the table of the first load, and importing the aggregator again
  returns that very table without changing the state. In a process started from an empty
  module map, the four names are also still bound to the same definitions: the table
  built from the module map as it is then is the table of the first load.
\<close>

theorem export_table_is_built_once:
  assumes "import_module h aggregator rt = (Inr t, rt1)"
  shows "module_map (run h ops rt1) aggregator = Some (Inr t) \<and>
         import_module h aggregator (run h ops rt1) = (Inr t, run h ops rt1) \<and>
         (rt = run h ops0 (boot w) \<longrightarrow> export_table index_js (run h ops rt1) = t)"
proof (intro conjI impI)
  show kept: "module_map (run h ops rt1) aggregator = Some (Inr t)"
    using import_aggregator_Inr(2) [OF assms] by (rule run_keeps)
  show "import_module h aggregator (run h ops rt1) = (Inr t, run h ops rt1)"
    using import_aggregator_again [OF import_aggregator_Inr(1) [OF assms] kept] .
  assume "rt = run h ops0 (boot w)"
  then have "consistent h rt"
    by (simp add: consistent_reachable)
  then have "consistent h rt1"
    using assms by (rule consistent_import_aggregator)
  then have "consistent h (run h ops rt1)"
    by (rule consistent_run)
  then show "export_table index_js (run h ops rt1) = t"
    using kept by (rule consistent_table)
qed

theorem export_table_is_built_once_witness:
  "import_module mixins_host aggregator (boot 0) = (Inr mixins_table, mixins_loaded) \<and>
   boot 0 = run mixins_host [] (boot 0) \<and>
   module_map
     (run mixins_host
        [ImportNamed aggregator ''default'', Mutate (\<lambda>w. 0), ImportModule aggregator,
         ImportNamed ''./severity.mixin'' default_name]
        mixins_loaded) aggregator = Some (Inr mixins_table) \<and>
   import_module mixins_host aggregator
     (run mixins_host
        [ImportNamed aggregator ''default'', Mutate (\<lambda>w. 0), ImportModule aggregator,
         ImportNamed ''./severity.mixin'' default_name]
        mixins_loaded) =
     (Inr mixins_table,
      run mixins_host
        [ImportNamed aggregator ''default'', Mutate (\<lambda>w. 0), ImportModule aggregator,
         ImportNamed ''./severity.mixin'' default_name]
        mixins_loaded) \<and>
   export_table index_js
     (run mixins_host
        [ImportNamed aggregator ''default'', Mutate (\<lambda>w. 0), ImportModule aggregator,
         ImportNamed ''./severity.mixin'' default_name]
        mixins_loaded) = mixins_table"
proof -
  have start: "boot 0 = run mixins_host [] (boot (0::nat))"
    by simp
  from export_table_is_built_once [OF import_aggregator_mixins_host, of _ "[]" 0]
    import_aggregator_mixins_host start
  show ?thesis by blast
qed

text \<open>
  C8: loading the aggregator does nothing beyond evaluating the four underlying modules
  and recording its own table. If linking fails or the aggregator has been loaded before,
  the state is left as it was; otherwise the state is the one left by evaluating the four
  requested modules in source order, with the aggregator's outcome recorded and nothing
  else. Every entry of the module map other than the aggregator's and the four requested
  modules' is untouched; when the four have all been evaluated before, the world is
  untouched; and importing a name from the aggregator afterwards changes nothing at all.
\<close>

theorem aggregator_load_has_no_effect_of_its_own:
  assumes "import_module h aggregator rt = (res, rt')"
    and "deps =
      snd (evaluate_all h
        [''./detection-status.mixin'', ''./bug-path-length-color.mixin'',
         ''./severity.mixin'', ''./str-to-color.mixin''] rt)"
  shows "(if link_source h index_js \<noteq> None \<or> module_map rt aggregator \<noteq> None then rt' = rt
          else rt' = deps\<lparr>module_map := (module_map deps)(aggregator \<mapsto> res)\<rparr>) \<and>
         (\<forall>k. k \<notin> {aggregator, ''./detection-status.mixin'', ''./bug-path-length-color.mixin'',
                  ''./severity.mixin'', ''./str-to-color.mixin''} \<longrightarrow>
              module_map rt' k = module_map rt k) \<and>
         ((\<forall>s \<in> {''./detection-status.mixin'', ''./bug-path-length-color.mixin'',
                  ''./severity.mixin'', ''./str-to-color.mixin''}. module_map rt s \<noteq> None) \<longrightarrow>
              world rt' = world rt) \<and>
         snd (import_named h aggregator n rt') = rt'"
proof -
  have deps: "deps = snd (evaluate_all h (requested_modules index_js) rt)"
    by (simp add: assms(2) requested_modules_index_js)
  have req: "set (requested_modules index_js) =
      {''./detection-status.mixin'', ''./bug-path-length-color.mixin'',
       ''./severity.mixin'', ''./str-to-color.mixin''}"
    by (simp add: requested_modules_index_js)
  have other: "module_map deps k = module_map rt k" if "k \<notin> set (requested_modules index_js)" for k
    using evaluate_all_other [of h "requested_modules index_js" rt
        "fst (evaluate_all h (requested_modules index_js) rt)" deps k] that deps
    by simp
  have idle: "deps = rt" if "\<forall>s \<in> set (requested_modules index_js). module_map rt s \<noteq> None"
    using that unfolding deps by (rule evaluate_all_idle)
  show ?thesis
  proof (cases h rt rule: import_aggregator_cases)
    case (link_failed e)
    with assms(1) have "rt' = rt" by simp
    moreover from link_failed(1) have "snd (import_named h aggregator n rt) = rt"
      by (simp add: import_named_def link_consumer_def)
    ultimately show ?thesis using link_failed(1) by simp
  next
    case (cached r)
    with assms(1) have same: "rt' = rt" and r: "r = res" by simp_all
    from cached(1,2) have "snd (import_named h aggregator n rt) = rt"
      using import_aggregator_again [OF cached(1,2)]
      by (simp add: import_named_def link_consumer_def split: option.splits sum.splits)
    with same cached(2) show ?thesis by simp
  next
    case (thrown e rt1)
    with assms(1) deps have rt': "rt' = deps\<lparr>module_map := (module_map deps)(aggregator \<mapsto> res)\<rparr>"
      and res: "res = Inl e"
      by auto
    have "snd (import_named h aggregator n rt') = rt'"
      using import_aggregator_again [OF thrown(1), of rt' res] rt'
      by (simp add: import_named_def link_consumer_def thrown(1) res split: option.splits)
    with rt' thrown(1,2) other idle show ?thesis
      by (simp add: req)
  next
    case (built rt1)
    with assms(1) deps have rt': "rt' = deps\<lparr>module_map := (module_map deps)(aggregator \<mapsto> res)\<rparr>"
      by auto
    have "snd (import_named h aggregator n rt') = rt'"
      using import_aggregator_again [OF built(1), of rt' res] rt'
      by (simp add: import_named_def link_consumer_def built(1) split: option.splits sum.splits)
    with rt' built(1,2) other idle show ?thesis
      by (simp add: req)
  qed
qed

theorem aggregator_load_has_no_effect_of_its_own_witness:
  "import_module mixins_host aggregator (boot 0) = (Inr mixins_table, mixins_loaded) \<and>
   link_source mixins_host index_js = None \<and>
   module_map (boot (0::nat)) aggregator = None \<and>
   mixins_loaded =
     (snd (evaluate_all mixins_host
        [''./detection-status.mixin'', ''./bug-path-length-color.mixin'',
         ''./severity.mixin'', ''./str-to-color.mixin''] (boot 0)))
     \<lparr>module_map :=
        (module_map (snd (evaluate_all mixins_host
           [''./detection-status.mixin'', ''./bug-path-length-color.mixin'',
            ''./severity.mixin'', ''./str-to-color.mixin''] (boot 0))))
        (aggregator \<mapsto> Inr mixins_table)\<rparr> \<and>
   module_map mixins_loaded ''./other.mixin'' = module_map (boot (0::nat)) ''./other.mixin'' \<and>
   snd (import_named mixins_host aggregator ''SeverityMixin'' mixins_loaded) = mixins_loaded \<and>
   module_map
     (snd (evaluate_all mixins_host
        [''./detection-status.mixin'', ''./bug-path-length-color.mixin'',
         ''./severity.mixin'', ''./str-to-color.mixin''] (boot 0))) aggregator = None \<and>
   module_map
     (snd (evaluate_all mixins_host
        [''./detection-status.mixin'', ''./bug-path-length-color.mixin'',
         ''./severity.mixin'', ''./str-to-color.mixin''] (boot 0))) ''./detection-status.mixin'' \<noteq> None \<and>
   module_map
     (snd (evaluate_all mixins_host
        [''./detection-status.mixin'', ''./bug-path-length-color.mixin'',
         ''./severity.mixin'', ''./str-to-color.mixin''] (boot 0))) ''./bug-path-length-color.mixin'' \<noteq> None \<and>
   module_map
     (snd (evaluate_all mixins_host
        [''./detection-status.mixin'', ''./bug-path-length-color.mixin'',
         ''./severity.mixin'', ''./str-to-color.mixin''] (boot 0))) ''./severity.mixin'' \<noteq> None \<and>
   module_map
     (snd (evaluate_all mixins_host
        [''./detection-status.mixin'', ''./bug-path-length-color.mixin'',
         ''./severity.mixin'', ''./str-to-color.mixin''] (boot 0))) ''./str-to-color.mixin'' \<noteq> None \<and>
   world
     (snd (import_module mixins_host aggregator
        (snd (evaluate_all mixins_host
           [''./detection-status.mixin'', ''./bug-path-length-color.mixin'',
            ''./severity.mixin'', ''./str-to-color.mixin''] (boot 0))))) =
   world
     (snd (evaluate_all mixins_host
        [''./detection-status.mixin'', ''./bug-path-length-color.mixin'',
         ''./severity.mixin'', ''./str-to-color.mixin''] (boot 0)))"
proof -
  let ?D = "snd (evaluate_all mixins_host
        [''./detection-status.mixin'', ''./bug-path-length-color.mixin'',
         ''./severity.mixin'', ''./str-to-color.mixin''] (boot 0))"
  note first =
    aggregator_load_has_no_effect_of_its_own
      [OF import_aggregator_mixins_host refl, of "''SeverityMixin''"]
  have fresh: "module_map (boot (0::nat)) aggregator = None"
    by (simp add: boot_def)
  have other: "''./other.mixin'' \<notin>
      {aggregator, ''./detection-status.mixin'', ''./bug-path-length-color.mixin'',
       ''./severity.mixin'', ''./str-to-color.mixin''}"
    by (simp add: aggregator_def)
  have D: "?D = \<lparr>module_map =
         [''./detection-status.mixin'' \<mapsto> Inr [default_name \<mapsto> 0],
          ''./bug-path-length-color.mixin'' \<mapsto> Inr [default_name \<mapsto> 1],
          ''./severity.mixin'' \<mapsto> Inr [default_name \<mapsto> 2],
          ''./str-to-color.mixin'' \<mapsto> Inr [default_name \<mapsto> 3]],
       world = 4\<rparr>"
    using evaluate_all_mixins_host by (simp add: requested_modules_index_js)
  have unloaded: "module_map ?D aggregator = None"
    unfolding D by (simp add: aggregator_def)
  have evaluated: "\<forall>s \<in> {''./detection-status.mixin'', ''./bug-path-length-color.mixin'',
           ''./severity.mixin'', ''./str-to-color.mixin''}. module_map ?D s \<noteq> None"
    unfolding D by simp
  have load: "import_module mixins_host aggregator ?D =
      (fst (import_module mixins_host aggregator ?D),
       snd (import_module mixins_host aggregator ?D))"
    by simp
  note second = aggregator_load_has_no_effect_of_its_own [OF load refl]
  from second [THEN conjunct2, THEN conjunct2, THEN conjunct1] evaluated
  have quiet: "world (snd (import_module mixins_host aggregator ?D)) = world ?D"
    by (rule mp)
  from first fresh other import_aggregator_mixins_host link_source_mixins_host
  have "import_module mixins_host aggregator (boot 0) = (Inr mixins_table, mixins_loaded) \<and>
   link_source mixins_host index_js = None \<and>
   module_map (boot (0::nat)) aggregator = None \<and>
   mixins_loaded = ?D\<lparr>module_map := (module_map ?D)(aggregator \<mapsto> Inr mixins_table)\<rparr> \<and>
   module_map mixins_loaded ''./other.mixin'' = module_map (boot (0::nat)) ''./other.mixin'' \<and>
   snd (import_named mixins_host aggregator ''SeverityMixin'' mixins_loaded) = mixins_loaded"
    by simp
  moreover have
    "module_map ?D ''./detection-status.mixin'' \<noteq> None"
    "module_map ?D ''./bug-path-length-color.mixin'' \<noteq> None"
    "module_map ?D ''./severity.mixin'' \<noteq> None"
    "module_map ?D ''./str-to-color.mixin'' \<noteq> None"
    unfolding D by simp_all
  ultimately show ?thesis
    using unloaded quiet by (simp only: simp_thms)
qed

text \<open>
  C9, as the specification states it: the fragment is a single 12-line module. The stored
  file has 11 lines, so the count of 12 does not hold.
\<close>

theorem index_js_is_not_twelve_lines: "length index_js_text \<noteq> 12"
  by (simp add: index_js_text_def)

text \<open>
  C9, amended: the fragment is a single 11-line module whose only content is four default
  imports and one export list that re-exports exactly the four imported bindings. The
  module items are those read off the 11 lines; there are five of them, four import
  entries and one export list of four names, and the exported names are the imported
  local names.
\<close>

theorem index_js_is_eleven_lines_of_reexport:
  "length index_js_text = 11 \<and>
   read_items None index_js_text = Some index_js \<and>
   length index_js = 5 \<and>
   length (import_entries index_js) = 4 \<and>
   length (exported_names index_js) = 4 \<and>
   set (exported_names index_js) = fst ` set (import_entries index_js)"
proof -
  have "length index_js_text = 11"
    by (simp add: index_js_text_def)
  moreover have "read_items None index_js_text = Some index_js"
    by (simp add: index_js_text_def index_js_def strip_suffix_def unquote_def)
  moreover have "length index_js = 5"
    by (simp add: index_js_def)
  moreover have "length (import_entries index_js) = 4"
    by (simp add: import_entries_index_js)
  moreover have "length (exported_names index_js) = 4"
    by (simp add: exported_names_index_js)
  ultimately show ?thesis
    using exported_are_imported by blast
qed

text \<open>
  C10: the aggregator has named exports only. \<open>default\<close> is not among its exported names,
  importing its default binding fails in every state (with the aggregator's linking error
  if there is one, otherwise with the error that it has no export named \<open>default\<close>) and
  changes nothing, and the table of a loaded aggregator has no entry \<open>default\<close>.
\<close>

theorem aggregator_has_no_default_export:
  "default_name \<notin> set (exported_names index_js) \<and>
   import_default h aggregator rt =
     (Inl (case link_source h index_js of
             Some e \<Rightarrow> e
           | None \<Rightarrow> ExportNotFound aggregator default_name), rt) \<and>
   (rt = run h ops (boot w) \<and> import_module h aggregator rt = (Inr t, rt') \<longrightarrow>
      t default_name = None)"
proof (intro conjI impI)
  show no: "default_name \<notin> set (exported_names index_js)"
    by (simp add: exported_names_index_js default_name_def)
  then show "import_default h aggregator rt =
     (Inl (case link_source h index_js of
             Some e \<Rightarrow> e
           | None \<Rightarrow> ExportNotFound aggregator default_name), rt)"
    by (simp add: import_default_def import_named_def link_consumer_def split: option.splits)
  assume "rt = run h ops (boot w) \<and> import_module h aggregator rt = (Inr t, rt')"
  then have c: "consistent h rt" and load: "import_module h aggregator rt = (Inr t, rt')"
    by (auto simp: consistent_reachable)
  have "consistent h rt'"
    using consistent_import_aggregator [OF c load] .
  from table_dom [OF this import_aggregator_Inr(2) [OF load]] no
  show "t default_name = None" by blast
qed

theorem aggregator_has_no_default_export_witness:
  "boot 0 = run mixins_host [] (boot 0) \<and>
   import_module mixins_host aggregator (boot 0) = (Inr mixins_table, mixins_loaded) \<and>
   mixins_table default_name = None \<and>
   import_default mixins_host aggregator (boot 0) =
     (Inl (ExportNotFound aggregator default_name), boot 0)"
proof -
  have start: "boot 0 = run mixins_host [] (boot (0::nat))"
    by simp
  from aggregator_has_no_default_export [of mixins_host "boot 0" "[]" 0 mixins_table mixins_loaded]
    start import_aggregator_mixins_host
  show ?thesis by (simp add: link_source_mixins_host)
qed

end
